theory Spec2Isabelle
  imports Complex_Main "HOL-Library.Sublist" "HOL-Library.AList"
begin

section \<open>Data model of gaia-project-scraper.py\<close>

text \<open>
  Strings are lists of characters, read as code points below 256. Python integers are
  unbounded: quantities are \<open>nat\<close> (they come from digit runs), counters are \<open>int\<close>.
  Every exception the source can raise is a value of \<open>py_error\<close>; \<open>SystemExit\<close> is
  what \<^verbatim>\<open>sys.exit(1)\<close> raises.
\<close>

datatype Res = COIN | ORE | KNOWLEDGE | QIC | POWER | PT | VP

datatype ChangeType = GAIN | LOSS

datatype py_error =
  ValueError | SystemExit | AttributeError | KeyError | ZeroDivisionError | OverflowError

text \<open>
  \<^verbatim>\<open>StateChange\<close>: the attribute \<open>resource\<close> is assigned only when a vocabulary entry
  matches, so it is optional here; reading it while unset raises AttributeError.
\<close>

record StateChange =
  type :: ChangeType
  resource :: "Res option"
  quantity :: nat

definition FACTIONS :: "string list" where
  "FACTIONS = [''ambas'', ''baltaks'', ''bescods'', ''firaks'', ''geodens'', ''gleens'',
     ''hadsch-hallas'', ''itars'', ''ivits'', ''lantids'', ''nevlas'', ''taklons'',
     ''terrans'', ''xenos'']"

definition TECH_TRACKS :: "string list" where
  "TECH_TRACKS = [''terra'', ''nav'', ''int'', ''gaia'', ''eco'', ''sci'']"

text \<open>The dictionary \<^verbatim>\<open>_RESOURCE_MAP\<close>, in insertion order, which is its iteration order.\<close>

definition RESOURCE_MAP :: "(string \<times> Res) list" where
  "RESOURCE_MAP = [(''c'', COIN), (''o'', ORE), (''k'', KNOWLEDGE), (''q'', QIC),
     (''pw'', POWER), (''t'', PT), (''vp'', VP)]"

section \<open>String primitives of Python used by the parser\<close>

text \<open>\<^verbatim>\<open>s.endswith(k)\<close>.\<close>

definition endswith :: "string \<Rightarrow> string \<Rightarrow> bool" where
  "endswith s k = (length k \<le> length s \<and> drop (length s - length k) s = k)"

text \<open>\<^verbatim>\<open>sub in s\<close> on strings: \<open>sub\<close> occurs as a contiguous substring.\<close>

fun str_contains :: "string \<Rightarrow> string \<Rightarrow> bool" where
  "str_contains [] sub = (sub = [])"
| "str_contains (c # cs) sub = (prefix sub (c # cs) \<or> str_contains cs sub)"

text \<open>The class \<^verbatim>\<open>\d\<close> of the regular expression, on code points below 256.\<close>

definition isdigit :: "char \<Rightarrow> bool" where
  "isdigit c = (48 \<le> (of_char c :: nat) \<and> (of_char c :: nat) \<le> 57)"

text \<open>Whitespace as \<^verbatim>\<open>str.strip()\<close> sees it, on code points below 256.\<close>

definition isspace :: "char \<Rightarrow> bool" where
  "isspace c = (let n = (of_char c :: nat) in
     (9 \<le> n \<and> n \<le> 13) \<or> (28 \<le> n \<and> n \<le> 32) \<or> n = 133 \<or> n = 160)"

definition strip :: "string \<Rightarrow> string" where
  "strip s = rev (dropWhile isspace (rev (dropWhile isspace s)))"

text \<open>\<^verbatim>\<open>s.split(sep)\<close> with an explicit one-character separator: never an empty list.\<close>

fun split :: "char \<Rightarrow> string \<Rightarrow> string list" where
  "split sep [] = [[]]"
| "split sep (c # cs) =
     (if c = sep then [] # split sep cs
      else (case split sep cs of [] \<Rightarrow> [[c]] | w # ws \<Rightarrow> (c # w) # ws))"

text \<open>\<^verbatim>\<open>re.findall(r'\d+', s)\<close>: the maximal digit runs of \<open>s\<close>, left to right.\<close>

function findall_digits :: "string \<Rightarrow> string list" where
  "findall_digits s =
     (case dropWhile (\<lambda>c. \<not> isdigit c) s of
        [] \<Rightarrow> []
      | d # r \<Rightarrow> takeWhile isdigit (d # r) # findall_digits (dropWhile isdigit (d # r)))"
  by pat_completeness auto
termination
proof (relation "measure length")
  show "wf (measure length)" by simp
next
  fix s :: string and d r
  assume eq: "dropWhile (\<lambda>c. \<not> isdigit c) s = d # r"
  have "isdigit d"
    using hd_dropWhile [of "\<lambda>c. \<not> isdigit c" s] eq by simp
  then have "length (dropWhile isdigit (d # r)) \<le> length r"
    by (simp add: length_dropWhile_le)
  also have "length r < length (d # r)" by simp
  also have "length (d # r) \<le> length s"
    using length_dropWhile_le [of "\<lambda>c. \<not> isdigit c" s] eq by simp
  finally show "(dropWhile isdigit (d # r), s) \<in> measure length" by simp
qed

declare findall_digits.simps [simp del]

text \<open>\<^verbatim>\<open>int(ds)\<close> on a run of decimal digits, read left to right.\<close>

definition digit_val :: "char \<Rightarrow> nat" where
  "digit_val c = of_char c - 48"

definition int_of_digits :: "string \<Rightarrow> nat" where
  "int_of_digits ds = foldl (\<lambda>n c. 10 * n + digit_val c) 0 ds"

section \<open>StateChange: the change parser\<close>

text \<open>The loop over \<^verbatim>\<open>_RESOURCE_MAP.items()\<close> with its \<^verbatim>\<open>break\<close>.\<close>

fun find_resource :: "(string \<times> Res) list \<Rightarrow> string \<Rightarrow> Res option" where
  "find_resource [] s = None"
| "find_resource ((res_string, res_type) # m) s =
     (if endswith s res_string then Some res_type else find_resource m s)"

text \<open>
  \<^verbatim>\<open>StateChange.__init__\<close>: ValueError on the empty string; the direction from the first
  character; the resource from the first matching suffix; the quantity from the first
  digit run, where the IndexError of \<^verbatim>\<open>[0]\<close> is caught and turned into \<^verbatim>\<open>sys.exit(1)\<close>.
\<close>

definition StateChange_init :: "string \<Rightarrow> py_error + StateChange" where
  "StateChange_init state_change_string =
     (if state_change_string = [] then Inl ValueError
      else
        let t = (if hd state_change_string = CHR ''-'' then LOSS else GAIN);
            r = find_resource RESOURCE_MAP state_change_string
        in (case findall_digits state_change_string of
              [] \<Rightarrow> Inl SystemExit
            | q # _ \<Rightarrow> Inr \<lparr>type = t, resource = r, quantity = int_of_digits q\<rparr>))"

text \<open>
  The number a digit string writes in base ten, by position: the reference the parsed
  quantity is compared with.
\<close>

fun digits_value :: "string \<Rightarrow> nat" where
  "digits_value [] = 0"
| "digits_value (c # cs) = digit_val c * 10 ^ length cs + digits_value cs"

section \<open>Rows and log items\<close>

text \<open>
  What the parser reads of an HTML element: \<^verbatim>\<open>.string\<close>, which is
  \<^verbatim>\<open>None\<close> unless the element holds a single text, and the \<^verbatim>\<open>.string\<close> of every
  \<^verbatim>\<open>div\<close> that \<^verbatim>\<open>find_all('div')\<close> returns. A row is the list of its \<^verbatim>\<open>td\<close> cells.
\<close>

record cell =
  cell_string :: "string option"
  cell_divs :: "string option list"

type_synonym row = "cell list"

type_synonym event = "string \<times> StateChange option list"

record LogItem =
  "text" :: string
  faction :: "string option"
  events :: "event list option"

text \<open>A list comprehension whose body may raise: the first error ends it.\<close>

fun map_result :: "('a \<Rightarrow> py_error + 'b) \<Rightarrow> 'a list \<Rightarrow> py_error + 'b list" where
  "map_result f [] = Inr []"
| "map_result f (x # xs) =
     (case f x of
        Inl e \<Rightarrow> Inl e
      | Inr y \<Rightarrow> (case map_result f xs of Inl e \<Rightarrow> Inl e | Inr ys \<Rightarrow> Inr (y # ys)))"

text \<open>A \<^verbatim>\<open>for\<close> loop that updates a state and whose body may raise.\<close>

fun for_each :: "('a \<Rightarrow> 's \<Rightarrow> py_error + 's) \<Rightarrow> 'a list \<Rightarrow> 's \<Rightarrow> py_error + 's" where
  "for_each body [] s = Inr s"
| "for_each body (x # xs) s =
     (case body x s of Inl e \<Rightarrow> Inl e | Inr s' \<Rightarrow> for_each body xs s')"

text \<open>\<^verbatim>\<open>LogItem._get_faction\<close>: the first faction of the list that occurs in the text.\<close>

definition get_faction :: "string \<Rightarrow> string option" where
  "get_faction t = find (\<lambda>faction. str_contains t faction) FACTIONS"

text \<open>
  The inner loop of \<^verbatim>\<open>_compute_events\<close>: a token that is not blank is parsed, a blank
  one becomes \<^verbatim>\<open>None\<close>.
\<close>

definition parse_change :: "string \<Rightarrow> py_error + StateChange option" where
  "parse_change change =
     (if strip change \<noteq> []
      then (case StateChange_init (strip change) of Inl e \<Rightarrow> Inl e | Inr c \<Rightarrow> Inr (Some c))
      else Inr None)"

text \<open>
  One turn of the outer loop: \<^verbatim>\<open>.strip()\<close> on a \<^verbatim>\<open>None\<close> string raises
  AttributeError; commas are removed and the rest is split at single spaces.
\<close>

definition compute_event :: "string option \<times> string option \<Rightarrow> py_error + event" where
  "compute_event p =
     (case fst p of
        None \<Rightarrow> Inl AttributeError
      | Some action \<Rightarrow>
          (case snd p of
             None \<Rightarrow> Inl AttributeError
           | Some state_change \<Rightarrow>
               (case map_result parse_change
                       (split (CHR '' '') (filter (\<lambda>c. c \<noteq> CHR '','') (strip state_change))) of
                  Inl e \<Rightarrow> Inl e
                | Inr change_list \<Rightarrow> Inr (strip action, change_list))))"

definition compute_events :: "cell \<Rightarrow> cell \<Rightarrow> py_error + event list" where
  "compute_events actions_html state_change_html =
     map_result compute_event (zip (cell_divs actions_html) (cell_divs state_change_html))"

text \<open>\<^verbatim>\<open>LogItem.parse_from_HTML\<close>.\<close>

definition LogItem_parse_from_HTML :: "row \<Rightarrow> py_error + LogItem" where
  "LogItem_parse_from_HTML cols =
     (if length cols < 1 then Inl ValueError
      else (case cell_string (cols ! 0) of
              None \<Rightarrow> Inl AttributeError
            | Some s \<Rightarrow>
                if length cols = 3
                then (case compute_events (cols ! 1) (cols ! 2) of
                        Inl e \<Rightarrow> Inl e
                      | Inr evs \<Rightarrow>
                          Inr \<lparr>text = strip s, faction = get_faction (strip s),
                               events = Some evs\<rparr>)
                else Inr \<lparr>text = strip s, faction = get_faction (strip s), events = None\<rparr>))"

section \<open>The game log\<close>

text \<open>
  \<^verbatim>\<open>GameLog\<close>. The set of factions is kept as a list without duplicates, so that the
  dictionary built from it has an iteration order.
\<close>

record GameLog =
  factions :: "string list"
  items :: "LogItem list"

definition add_faction :: "string list \<Rightarrow> LogItem \<Rightarrow> string list" where
  "add_faction fs item =
     (case LogItem.faction item of
        None \<Rightarrow> fs
      | Some f \<Rightarrow>
          if f = [] then fs
          else if strip f \<in> set fs then fs else fs @ [strip f])"

text \<open>\<^verbatim>\<open>GameLog.parse_from_HTML\<close>, from the rows that \<^verbatim>\<open>find_all('tr', ...)\<close> returns.\<close>

definition GameLog_parse_from_HTML :: "row list \<Rightarrow> py_error + GameLog" where
  "GameLog_parse_from_HTML log_rows =
     (case map_result LogItem_parse_from_HTML (rev log_rows) of
        Inl e \<Rightarrow> Inl e
      | Inr its \<Rightarrow> Inr \<lparr>factions = foldl add_faction [] its, items = its\<rparr>)"

section \<open>Statistics\<close>

text \<open>\<^verbatim>\<open>FactionStats\<close> with the fields of \<^verbatim>\<open>VPStats\<close> and \<^verbatim>\<open>ResourceStats\<close>.\<close>

record FactionStats =
  faction :: string
  vp :: int
  vp_lost_from_leech :: int
  vp_from_round_scoring :: int
  vp_from_boosters :: int
  vp_from_endgame :: int
  vp_from_techs :: int
  vp_from_adv_techs :: int
  vp_from_feds :: int
  vp_from_qic_act :: int
  vp_from_tracks :: int
  vp_from_resources :: int
  leech :: int
  power :: int
  coins :: int
  ore :: int
  knowledge :: int
  qic :: int
  pt :: int

definition FactionStats_init :: "string \<Rightarrow> FactionStats" where
  "FactionStats_init f =
     \<lparr>faction = f, vp = 10, vp_lost_from_leech = 0, vp_from_round_scoring = 0,
      vp_from_boosters = 0, vp_from_endgame = 0, vp_from_techs = 0, vp_from_adv_techs = 0,
      vp_from_feds = 0, vp_from_qic_act = 0, vp_from_tracks = 0, vp_from_resources = 0,
      leech = 0, power = 0, coins = 0, ore = 0, knowledge = 0, qic = 0, pt = 0\<rparr>"

text \<open>The \<^verbatim>\<open>elif\<close> chain of \<^verbatim>\<open>VPStats.update_vp\<close>, in the order of the source.\<close>

definition update_bucket :: "string \<Rightarrow> int \<Rightarrow> FactionStats \<Rightarrow> FactionStats" where
  "update_bucket action q self =
     (if str_contains action ''round''
        then self\<lparr>vp_from_round_scoring := vp_from_round_scoring self + q\<rparr>
      else if str_contains action ''booster''
        then self\<lparr>vp_from_boosters := vp_from_boosters self + q\<rparr>
      else if str_contains action ''final''
        then self\<lparr>vp_from_endgame := vp_from_endgame self + q\<rparr>
      else if str_contains action ''tech''
        then self\<lparr>vp_from_techs := vp_from_techs self + q\<rparr>
      else if str_contains action ''adv''
        then self\<lparr>vp_from_adv_techs := vp_from_adv_techs self + q\<rparr>
      else if ''federation'' = action
        then self\<lparr>vp_from_feds := vp_from_feds self + q\<rparr>
      else if str_contains action ''qic''
        then self\<lparr>vp_from_qic_act := vp_from_qic_act self + q\<rparr>
      else if action \<in> set TECH_TRACKS
        then self\<lparr>vp_from_tracks := vp_from_tracks self + q\<rparr>
      else if ''spend'' = action
        then self\<lparr>vp_from_resources := vp_from_resources self + q\<rparr>
      else if ''charge'' = action
        then self\<lparr>vp_lost_from_leech := vp_lost_from_leech self - q\<rparr>
      else self)"

text \<open>
  \<^verbatim>\<open>VPStats.update_vp\<close>. Reading \<^verbatim>\<open>change.resource\<close> while it is unset raises
  AttributeError; the assertion on \<^verbatim>\<open>change.type\<close> holds for both directions.
\<close>

definition update_vp :: "string \<Rightarrow> StateChange \<Rightarrow> FactionStats \<Rightarrow> py_error + FactionStats" where
  "update_vp action change self =
     (case resource change of
        None \<Rightarrow> Inl AttributeError
      | Some r \<Rightarrow>
          if r \<noteq> VP then Inr self
          else
            let self1 = update_bucket action (int (quantity change)) self
            in (case type change of
                  GAIN \<Rightarrow> Inr (self1\<lparr>vp := vp self1 + int (quantity change)\<rparr>)
                | LOSS \<Rightarrow> Inr (self1\<lparr>vp := vp self1 - int (quantity change)\<rparr>)))"

text \<open>
  \<^verbatim>\<open>_RESOURCE_TO_FIELD_MAP\<close>: each resource with a counter is mapped to its field, given
  here by what \<^verbatim>\<open>getattr\<close> and \<^verbatim>\<open>setattr\<close> do on that field. \<open>VP\<close> is not a key.
\<close>

definition RESOURCE_TO_FIELD_MAP ::
  "(Res \<times> (FactionStats \<Rightarrow> int) \<times> (int \<Rightarrow> FactionStats \<Rightarrow> FactionStats)) list" where
  "RESOURCE_TO_FIELD_MAP =
     [(POWER, power, \<lambda>v. power_update (\<lambda>_. v)),
      (COIN, coins, \<lambda>v. coins_update (\<lambda>_. v)),
      (ORE, ore, \<lambda>v. ore_update (\<lambda>_. v)),
      (KNOWLEDGE, knowledge, \<lambda>v. knowledge_update (\<lambda>_. v)),
      (QIC, qic, \<lambda>v. qic_update (\<lambda>_. v)),
      (PT, pt, \<lambda>v. pt_update (\<lambda>_. v))]"

text \<open>\<^verbatim>\<open>ResourceStats.update_resources\<close>.\<close>

definition update_resources ::
  "string \<Rightarrow> StateChange \<Rightarrow> FactionStats \<Rightarrow> py_error + FactionStats" where
  "update_resources action change self =
     (if type change = LOSS then Inr self
      else
        let self1 = (if ''charge'' = action
                     then self\<lparr>leech := leech self + int (quantity change)\<rparr> else self)
        in (case resource change of
              None \<Rightarrow> Inl AttributeError
            | Some r \<Rightarrow>
                (case map_of RESOURCE_TO_FIELD_MAP r of
                   None \<Rightarrow> Inl KeyError
                 | Some (getattr, setattr) \<Rightarrow>
                     Inr (setattr (getattr self1 + int (quantity change)) self1))))"

text \<open>
  \<^verbatim>\<open>FactionStats.augment\<close>. The loop body reads \<^verbatim>\<open>change.resource\<close> first: on a
  \<^verbatim>\<open>None\<close> change, and on a change whose resource is unset, that raises AttributeError.
\<close>

definition augment_change ::
  "string \<Rightarrow> StateChange option \<Rightarrow> FactionStats \<Rightarrow> py_error + FactionStats" where
  "augment_change action change self =
     (case change of
        None \<Rightarrow> Inl AttributeError
      | Some c \<Rightarrow>
          (case resource c of
             None \<Rightarrow> Inl AttributeError
           | Some r \<Rightarrow>
               if r = VP then update_vp action c self else update_resources action c self))"

definition augment :: "event \<Rightarrow> FactionStats \<Rightarrow> py_error + FactionStats" where
  "augment event self = for_each (augment_change (fst event)) (snd event) self"

text \<open>
  \<^verbatim>\<open>Stats\<close>. The dictionary \<^verbatim>\<open>faction_stats\<close> is an association list in insertion
  order; \<^verbatim>\<open>faction_stats[f]\<close> raises KeyError on a missing key, and the object found
  is updated in place.
\<close>

record Stats =
  log :: GameLog
  faction_stats :: "(string \<times> FactionStats) list"

definition augment_faction ::
  "string \<Rightarrow> event \<Rightarrow> (string \<times> FactionStats) list \<Rightarrow> py_error + (string \<times> FactionStats) list"
  where
  "augment_faction f event d =
     (case map_of d f of
        None \<Rightarrow> Inl KeyError
      | Some st \<Rightarrow>
          (case augment event st of
             Inl e \<Rightarrow> Inl e
           | Inr st' \<Rightarrow> Inr (AList.update f st' d)))"

text \<open>The body of the loop over the items: \<^verbatim>\<open>None\<close>, \<^verbatim>\<open>''\<close> and \<^verbatim>\<open>[]\<close> are falsy.\<close>

definition process_item ::
  "LogItem \<Rightarrow> (string \<times> FactionStats) list \<Rightarrow> py_error + (string \<times> FactionStats) list" where
  "process_item item d =
     (case LogItem.faction item of
        None \<Rightarrow> Inr d
      | Some f \<Rightarrow>
          (case events item of
             None \<Rightarrow> Inr d
           | Some evs \<Rightarrow>
               if f \<noteq> [] \<and> evs \<noteq> [] then for_each (augment_faction f) evs d else Inr d))"

definition Stats_init :: "GameLog \<Rightarrow> py_error + Stats" where
  "Stats_init l =
     (case for_each process_item (items l)
             (foldl (\<lambda>d f. AList.update f (FactionStats_init f) d) [] (factions l)) of
        Inl e \<Rightarrow> Inl e
      | Inr d \<Rightarrow> Inr \<lparr>log = l, faction_stats = d\<rparr>)"

section \<open>Reports\<close>

text \<open>
  Python's \<^verbatim>\<open>/\<close> on two integers raises ZeroDivisionError on a zero divisor and
  otherwise yields a float, or OverflowError when the quotient is too large for one. The
  float arithmetic is a parameter of the model: \<open>fdiv a b\<close> is what \<^verbatim>\<open>a / b\<close> yields for
  \<open>b \<noteq> 0\<close>, and \<open>fmul x n\<close> is the float \<^verbatim>\<open>x * n\<close>.
\<close>

definition truediv :: "(int \<Rightarrow> int \<Rightarrow> py_error + 'f) \<Rightarrow> int \<Rightarrow> int \<Rightarrow> py_error + 'f" where
  "truediv fdiv a b = (if b = 0 then Inl ZeroDivisionError else fdiv a b)"

text \<open>The ten category counters, in the order of the columns of the report.\<close>

definition vp_categories :: "FactionStats \<Rightarrow> int list" where
  "vp_categories stats =
     [vp_from_round_scoring stats, vp_from_boosters stats, vp_from_endgame stats,
      vp_from_techs stats, vp_from_adv_techs stats, vp_from_feds stats,
      vp_from_qic_act stats, vp_from_tracks stats, vp_from_resources stats,
      vp_lost_from_leech stats]"

text \<open>One entry \<^verbatim>\<open>counter/stats.vp*100\<close> of a row of the percentage table.\<close>

definition percentage ::
  "(int \<Rightarrow> int \<Rightarrow> py_error + 'f) \<Rightarrow> ('f \<Rightarrow> int \<Rightarrow> 'f) \<Rightarrow> int \<Rightarrow> int \<Rightarrow> py_error + 'f" where
  "percentage fdiv fmul counter total_vp =
     (case truediv fdiv counter total_vp of Inl e \<Rightarrow> Inl e | Inr x \<Rightarrow> Inr (fmul x 100))"

definition percentage_row ::
  "(int \<Rightarrow> int \<Rightarrow> py_error + 'f) \<Rightarrow> ('f \<Rightarrow> int \<Rightarrow> 'f) \<Rightarrow> string \<times> FactionStats
     \<Rightarrow> py_error + string \<times> 'f list" where
  "percentage_row fdiv fmul p =
     (case map_result (\<lambda>counter. percentage fdiv fmul counter (vp (snd p)))
             (vp_categories (snd p)) of
        Inl e \<Rightarrow> Inl e
      | Inr ps \<Rightarrow> Inr (fst p, ps))"

text \<open>
  \<^verbatim>\<open>Stats.breakdown_vp\<close>: the rows of the table of counters and the rows of the table of
  percentages. The first table is printed before the second is computed.
\<close>

definition breakdown_vp ::
  "(int \<Rightarrow> int \<Rightarrow> py_error + 'f) \<Rightarrow> ('f \<Rightarrow> int \<Rightarrow> 'f) \<Rightarrow> Stats
     \<Rightarrow> py_error + (string \<times> int list) list \<times> (string \<times> 'f list) list" where
  "breakdown_vp fdiv fmul self =
     (let rows = map (\<lambda>p. (fst p, vp (snd p) # vp_categories (snd p))) (faction_stats self)
      in (case map_result (percentage_row fdiv fmul) (faction_stats self) of
            Inl e \<Rightarrow> Inl e
          | Inr prows \<Rightarrow> Inr (rows, prows)))"

text \<open>\<^verbatim>\<open>Stats.breakdown_resources\<close>.\<close>

definition breakdown_resources :: "Stats \<Rightarrow> (string \<times> int list) list" where
  "breakdown_resources self =
     map (\<lambda>p. (fst p, [power (snd p), leech (snd p), coins (snd p), ore (snd p),
                       knowledge (snd p), qic (snd p), pt (snd p)])) (faction_stats self)"

text \<open>
  What \<^verbatim>\<open>main\<close> and \<^verbatim>\<open>test_main\<close> do with the rows of the log element: parse the log,
  compute the statistics, print the breakdowns.
\<close>

definition main ::
  "(int \<Rightarrow> int \<Rightarrow> py_error + 'f) \<Rightarrow> ('f \<Rightarrow> int \<Rightarrow> 'f) \<Rightarrow> row list
     \<Rightarrow> py_error + ((string \<times> int list) list \<times> (string \<times> 'f list) list)
                    \<times> (string \<times> int list) list" where
  "main fdiv fmul log_rows =
     (case GameLog_parse_from_HTML log_rows of
        Inl e \<Rightarrow> Inl e
      | Inr l \<Rightarrow>
          (case Stats_init l of
             Inl e \<Rightarrow> Inl e
           | Inr stats \<Rightarrow>
               (case breakdown_vp fdiv fmul stats of
                  Inl e \<Rightarrow> Inl e
                | Inr v \<Rightarrow> Inr (v, breakdown_resources stats))))"

section \<open>Notions of the specification\<close>

text \<open>
  The deltas of a participant: every present delta of every event of every log item whose
  faction is that participant.
\<close>

definition participant_deltas :: "string \<Rightarrow> LogItem list \<Rightarrow> StateChange list" where
  "participant_deltas f its =
     concat (map (\<lambda>item.
        if LogItem.faction item = Some f
        then (case events item of
                None \<Rightarrow> []
              | Some evs \<Rightarrow> concat (map (\<lambda>ev. List.map_filter (\<lambda>c. c) (snd ev)) evs))
        else []) its)"

text \<open>The sum of the quantities of the victory-point deltas of one direction.\<close>

definition vp_quantities :: "ChangeType \<Rightarrow> StateChange list \<Rightarrow> int" where
  "vp_quantities t cs =
     sum_list (map (\<lambda>c. int (quantity c))
       (filter (\<lambda>c. resource c = Some VP \<and> type c = t) cs))"

text \<open>The counter that belongs to a resource kind other than victory points.\<close>

fun resource_counter :: "Res \<Rightarrow> FactionStats \<Rightarrow> int" where
  "resource_counter COIN = coins"
| "resource_counter ORE = ore"
| "resource_counter KNOWLEDGE = knowledge"
| "resource_counter QIC = qic"
| "resource_counter POWER = power"
| "resource_counter PT = pt"
| "resource_counter VP = vp"

text \<open>The nine victory-point buckets other than the leech bucket.\<close>

definition gain_buckets :: "(FactionStats \<Rightarrow> int) list" where
  "gain_buckets =
     [vp_from_round_scoring, vp_from_boosters, vp_from_endgame, vp_from_techs,
      vp_from_adv_techs, vp_from_feds, vp_from_qic_act, vp_from_tracks, vp_from_resources]"

section \<open>Auxiliary notions of the proofs\<close>

text \<open>The signed change of the victory-point total that one delta makes.\<close>

definition vp_delta :: "StateChange \<Rightarrow> int" where
  "vp_delta c =
     (if resource c = Some VP
      then (case type c of GAIN \<Rightarrow> int (quantity c) | LOSS \<Rightarrow> - int (quantity c))
      else 0)"

text \<open>The change of the victory-point total over an event, and over a log item of a participant.\<close>

definition event_vp :: "event \<Rightarrow> int" where
  "event_vp ev = sum_list (map vp_delta (List.map_filter (\<lambda>c. c) (snd ev)))"

definition item_vp :: "string \<Rightarrow> LogItem \<Rightarrow> int" where
  "item_vp g item =
     (if LogItem.faction item = Some g
      then (case events item of None \<Rightarrow> 0 | Some evs \<Rightarrow> sum_list (map event_vp evs))
      else 0)"

section \<open>Sample inputs\<close>

text \<open>
  Exact rational arithmetic, as one instance of the float parameters of the reports.
\<close>

definition exact_fdiv :: "int \<Rightarrow> int \<Rightarrow> py_error + rat" where
  "exact_fdiv a b = Inr (of_int a / of_int b)"

definition exact_fmul :: "rat \<Rightarrow> int \<Rightarrow> rat" where
  "exact_fmul x n = x * of_int n"

text \<open>Rows of a log: a round marker, and actions of a faction with their changes.\<close>

definition row_round :: row where
  "row_round = [\<lparr>cell_string = Some ''Round 1'', cell_divs = []\<rparr>]"

definition row_build :: row where
  "row_build = [\<lparr>cell_string = Some ''terrans build a mine '', cell_divs = []\<rparr>,
                \<lparr>cell_string = None, cell_divs = [Some ''build'']\<rparr>,
                \<lparr>cell_string = None, cell_divs = [Some ''-2c, -1o'']\<rparr>]"

definition row_charge :: row where
  "row_charge = [\<lparr>cell_string = Some ''terrans charge'', cell_divs = []\<rparr>,
                 \<lparr>cell_string = None, cell_divs = [Some ''charge'']\<rparr>,
                 \<lparr>cell_string = None, cell_divs = [Some ''3pw, -2vp'']\<rparr>]"

definition row_fed :: row where
  "row_fed = [\<lparr>cell_string = Some ''terrans federation'', cell_divs = []\<rparr>,
              \<lparr>cell_string = None, cell_divs = [Some ''federation'']\<rparr>,
              \<lparr>cell_string = None, cell_divs = [Some ''8vp'']\<rparr>]"


text \<open>A row with a token that has no digits, and a row with two spaces between tokens.\<close>

definition bad_row :: row where
  "bad_row = [\<lparr>cell_string = Some ''terrans pass'', cell_divs = []\<rparr>,
              \<lparr>cell_string = None, cell_divs = [Some ''build'']\<rparr>,
              \<lparr>cell_string = None, cell_divs = [Some ''2c, abc'']\<rparr>]"

definition row_gap :: row where
  "row_gap = [\<lparr>cell_string = Some ''terrans build'', cell_divs = []\<rparr>,
              \<lparr>cell_string = None, cell_divs = [Some ''build'']\<rparr>,
              \<lparr>cell_string = None, cell_divs = [Some ''4c  2o'']\<rparr>]"



section \<open>Loops that may raise\<close>

lemma map_result_Inl:
  "x \<in> set xs \<Longrightarrow> f x = Inl e \<Longrightarrow> \<exists>e'. map_result f xs = Inl e'"
  by (induction xs) (auto split: sum.splits)


lemma map_result_total:
  "(\<forall>x\<in>set xs. \<exists>y. f x = Inr y) \<Longrightarrow> \<exists>ys. map_result f xs = Inr ys"
  by (induction xs) auto

lemma map_result_Inr: "map_result f xs = Inr ys \<longleftrightarrow> map Inr ys = map f xs"
proof (induction xs arbitrary: ys)
  case Nil
  then show ?case by auto
next
  case (Cons x xs)
  show ?case
  proof (cases "f x")
    case (Inl e)
    then show ?thesis by (cases ys) auto
  next
    case (Inr y)
    show ?thesis
    proof (cases "map_result f xs")
      case (Inl e)
      with Cons.IH [of "tl ys"] Inr show ?thesis by (cases ys) auto
    next
      case r: (Inr zs)
      with Cons.IH [of zs] Cons.IH [of "tl ys"] Inr show ?thesis by (cases ys) auto
    qed
  qed
qed

section \<open>The change parser: suffixes and digit runs\<close>

lemma endswith_iff_suffix: "endswith s k \<longleftrightarrow> suffix k s"
proof
  assume "endswith s k"
  then have "s = take (length s - length k) s @ k"
    unfolding endswith_def by (metis append_take_drop_id)
  then show "suffix k s" unfolding suffix_def by blast
next
  assume "suffix k s"
  then obtain p where "s = p @ k" unfolding suffix_def by blast
  then show "endswith s k" by (simp add: endswith_def)
qed

lemma endswith_self: "endswith (p @ k) k"
  by (simp add: endswith_def)

lemma endswith_last:
  "k \<noteq> [] \<Longrightarrow> suf \<noteq> [] \<Longrightarrow> last k \<noteq> last suf \<Longrightarrow> \<not> endswith (p @ suf) k"
proof
  assume a: "k \<noteq> []" "suf \<noteq> []" "last k \<noteq> last suf" and "endswith (p @ suf) k"
  then obtain q where "p @ suf = q @ k" by (auto simp: endswith_iff_suffix suffix_def)
  then have "last (p @ suf) = last (q @ k)" by simp
  with a show False by simp
qed

lemma find_resource_None:
  "find_resource m s = None \<longleftrightarrow> (\<forall>i<length m. \<not> suffix (fst (m ! i)) s)"
proof (induction m)
  case Nil
  then show ?case by simp
next
  case (Cons a m)
  obtain k r where a: "a = (k, r)" by (cases a)
  show ?case
    using Cons.IH by (auto simp: a endswith_iff_suffix All_less_Suc2 nth_Cons split: nat.splits)
qed

lemma find_resource_first:
  "i < length m \<Longrightarrow> suffix (fst (m ! i)) s \<Longrightarrow> \<forall>j<i. \<not> suffix (fst (m ! j)) s
     \<Longrightarrow> find_resource m s = Some (snd (m ! i))"
proof (induction m arbitrary: i)
  case Nil
  then show ?case by simp
next
  case (Cons a m)
  obtain k r where a: "a = (k, r)" by (cases a)
  show ?case
  proof (cases i)
    case 0
    with Cons.prems show ?thesis by (simp add: a endswith_iff_suffix)
  next
    case (Suc i')
    from Cons.prems Suc have nk: "\<not> suffix k s" by (auto simp: a)
    from Cons.prems Suc have "\<forall>j<i'. \<not> suffix (fst (m ! j)) s" by auto
    with Cons.prems Suc have "find_resource m s = Some (snd (m ! i'))"
      by (intro Cons.IH) auto
    with nk Suc show ?thesis by (simp add: a endswith_iff_suffix)
  qed
qed

lemma find_resource_key:
  assumes "(suf, r) \<in> set RESOURCE_MAP"
  shows "find_resource RESOURCE_MAP (p @ suf) = Some r"
proof -
  have "suf \<in> {''c'', ''o'', ''k'', ''q'', ''pw'', ''t'', ''vp''}"
    using assms by (auto simp: RESOURCE_MAP_def)
  then have "find_resource RESOURCE_MAP (p @ suf) = map_of RESOURCE_MAP suf"
    by (auto simp: RESOURCE_MAP_def endswith_self endswith_last)
  moreover have "map_of RESOURCE_MAP suf = Some r"
    using assms by (intro map_of_is_SomeI) (simp_all add: RESOURCE_MAP_def)
  ultimately show ?thesis by simp
qed

lemma findall_digits_none:
  assumes "\<forall>c\<in>set s. \<not> isdigit c"
  shows "findall_digits s = []"
proof -
  from assms have "dropWhile (\<lambda>c. \<not> isdigit c) s = []" by simp
  then show ?thesis by (subst findall_digits.simps) (simp only: list.case)
qed

lemma findall_digits_first:
  assumes "\<exists>c\<in>set s. isdigit c"
  shows "\<exists>rest. findall_digits s = takeWhile isdigit (dropWhile (\<lambda>c. \<not> isdigit c) s) # rest"
proof -
  from assms have "dropWhile (\<lambda>c. \<not> isdigit c) s \<noteq> []"
    by (simp add: dropWhile_eq_Nil_conv)
  then obtain d r where "dropWhile (\<lambda>c. \<not> isdigit c) s = d # r"
    by (cases "dropWhile (\<lambda>c. \<not> isdigit c) s") auto
  then show ?thesis by (subst findall_digits.simps) simp
qed

lemma first_run_decomp:
  assumes "\<forall>c\<in>set pre. \<not> isdigit c" "ds \<noteq> []" "\<forall>c\<in>set ds. isdigit c"
    "post = [] \<or> \<not> isdigit (hd post)"
  shows "takeWhile isdigit (dropWhile (\<lambda>c. \<not> isdigit c) (pre @ ds @ post)) = ds"
proof -
  from assms(2,3) have "isdigit (hd ds)" by (cases ds) auto
  with assms(1,2) have "dropWhile (\<lambda>c. \<not> isdigit c) (pre @ ds @ post) = ds @ post"
    by (cases ds) (auto simp: dropWhile_append)
  moreover have "takeWhile isdigit (ds @ post) = ds"
    using assms(3,4) by (cases post) (auto simp: takeWhile_append)
  ultimately show ?thesis by simp
qed

lemma foldl_digits:
  "foldl (\<lambda>n c. 10 * n + digit_val c) a ds = a * 10 ^ length ds + digits_value ds"
  by (induction ds arbitrary: a) (simp_all add: algebra_simps)

lemma int_of_digits_value: "int_of_digits ds = digits_value ds"
  by (simp add: int_of_digits_def foldl_digits)

lemma hd_minus: "s \<noteq> [] \<Longrightarrow> hd s = CHR ''-'' \<longleftrightarrow> prefix ''-'' s"
  by (cases s) auto

lemma key_not_digit:
  "(suf, r) \<in> set RESOURCE_MAP \<Longrightarrow> suf \<noteq> [] \<and> \<not> isdigit (hd suf)"
  by (auto simp: RESOURCE_MAP_def isdigit_def)

lemma sign_not_digit:
  "sg = [] \<or> sg = ''+'' \<or> sg = ''-'' \<Longrightarrow> \<forall>c\<in>set sg. \<not> isdigit c"
  by (auto simp: isdigit_def)

lemma StateChange_init_digit:
  assumes "s \<noteq> []" "\<exists>c\<in>set s. isdigit c"
  shows "StateChange_init s =
    Inr \<lparr>type = (if hd s = CHR ''-'' then LOSS else GAIN),
         resource = find_resource RESOURCE_MAP s,
         quantity = digits_value (takeWhile isdigit (dropWhile (\<lambda>c. \<not> isdigit c) s))\<rparr>"
proof -
  from findall_digits_first [OF assms(2)]
  obtain rest where "findall_digits s = takeWhile isdigit (dropWhile (\<lambda>c. \<not> isdigit c) s) # rest"
    by blast
  with assms(1) show ?thesis
    by (simp add: StateChange_init_def int_of_digits_value)
qed

lemma StateChange_init_no_digit:
  assumes "s \<noteq> []" "\<forall>c\<in>set s. \<not> isdigit c"
  shows "StateChange_init s = Inl SystemExit"
  using assms(1) findall_digits_none [OF assms(2)] by (simp add: StateChange_init_def)

text \<open>Evaluation of the parser, of the row classifier and of the statistics on given inputs.\<close>

lemmas parser_eval =
  StateChange_init_def RESOURCE_MAP_def endswith_def findall_digits.simps isdigit_def
  int_of_digits_def digit_val_def

lemmas row_eval =
  LogItem_parse_from_HTML_def compute_events_def compute_event_def parse_change_def
  strip_def isspace_def get_faction_def FACTIONS_def parser_eval

lemmas stats_eval =
  main_def GameLog_parse_from_HTML_def add_faction_def Stats_init_def process_item_def
  augment_faction_def augment_def augment_change_def update_vp_def update_resources_def
  update_bucket_def RESOURCE_TO_FIELD_MAP_def TECH_TRACKS_def FactionStats_init_def

text \<open>
  Claim C4. On a token made of an optional sign (\<open>+\<close> or \<open>-\<close>), one or more decimal
  digits and a suffix of the vocabulary, the parser returns a delta whose direction is Loss
  exactly when the token starts with \<open>-\<close> and Gain otherwise, whose resource is the one the
  vocabulary maps the suffix to, and whose quantity is the number the digits write.
\<close>

theorem parser_recovers_wellformed_token:
  assumes sg: "sg = [] \<or> sg = ''+'' \<or> sg = ''-''"
    and ds: "ds \<noteq> []" "\<forall>c\<in>set ds. isdigit c"
    and suf: "(suf, r) \<in> set RESOURCE_MAP"
  shows "StateChange_init (sg @ ds @ suf) =
           Inr \<lparr>type = (if prefix ''-'' (sg @ ds @ suf) then LOSS else GAIN),
                resource = Some r, quantity = digits_value ds\<rparr>"
proof -
  let ?s = "sg @ ds @ suf"
  have ne: "?s \<noteq> []" using ds by simp
  have run: "takeWhile isdigit (dropWhile (\<lambda>c. \<not> isdigit c) ?s) = ds"
    using first_run_decomp [OF sign_not_digit [OF sg] ds] key_not_digit [OF suf] by blast
  have "\<exists>c\<in>set ?s. isdigit c" using ds by (cases ds) simp_all
  from findall_digits_first [OF this] run
  obtain rest where fd: "findall_digits ?s = ds # rest" by auto
  have res: "find_resource RESOURCE_MAP ?s = Some r"
    using find_resource_key [OF suf, of "sg @ ds"] by simp
  show ?thesis
    unfolding StateChange_init_def Let_def
    by (simp only: ne if_False fd list.case res hd_minus [OF ne] int_of_digits_value)
qed

theorem parser_recovers_wellformed_token_witness:
  "StateChange_init ''-12k'' = Inr \<lparr>type = LOSS, resource = Some KNOWLEDGE, quantity = 12\<rparr>
   \<and> StateChange_init ''4vp'' = Inr \<lparr>type = GAIN, resource = Some VP, quantity = 4\<rparr>"
  using parser_recovers_wellformed_token [of "''-''" "''12''" "''k''" KNOWLEDGE]
    parser_recovers_wellformed_token [of "[]" "''4''" "''vp''" VP]
  by (simp add: RESOURCE_MAP_def isdigit_def digit_val_def)

text \<open>
  Claim C8. On a non-empty token that contains a digit, the parser returns a delta. The
  vocabulary is iterated in the order \<open>c, o, k, q, pw, t, vp\<close>; the resource of the delta is
  that of the first entry whose string is a suffix of the token, and when no entry is a
  suffix of the token the resource is left unset.
\<close>

theorem resource_is_first_matching_suffix:
  assumes "s \<noteq> []" "\<exists>c\<in>set s. isdigit c"
  shows "map fst RESOURCE_MAP = [''c'', ''o'', ''k'', ''q'', ''pw'', ''t'', ''vp''] \<and>
    (\<exists>sc. StateChange_init s = Inr sc \<and>
      (\<forall>i<length RESOURCE_MAP.
          suffix (fst (RESOURCE_MAP ! i)) s \<and> (\<forall>j<i. \<not> suffix (fst (RESOURCE_MAP ! j)) s)
            \<longrightarrow> resource sc = Some (snd (RESOURCE_MAP ! i))) \<and>
      ((\<forall>i<length RESOURCE_MAP. \<not> suffix (fst (RESOURCE_MAP ! i)) s) \<longrightarrow> resource sc = None))"
proof
  show "map fst RESOURCE_MAP = [''c'', ''o'', ''k'', ''q'', ''pw'', ''t'', ''vp'']"
    by (simp add: RESOURCE_MAP_def)
next
  let ?sc = "\<lparr>type = (if hd s = CHR ''-'' then LOSS else GAIN),
         resource = find_resource RESOURCE_MAP s,
         quantity = digits_value (takeWhile isdigit (dropWhile (\<lambda>c. \<not> isdigit c) s))\<rparr>"
  have "StateChange_init s = Inr ?sc" by (rule StateChange_init_digit [OF assms])
  moreover have "\<forall>i<length RESOURCE_MAP.
          suffix (fst (RESOURCE_MAP ! i)) s \<and> (\<forall>j<i. \<not> suffix (fst (RESOURCE_MAP ! j)) s)
            \<longrightarrow> resource ?sc = Some (snd (RESOURCE_MAP ! i))"
    using find_resource_first [of _ RESOURCE_MAP s] by simp
  moreover have "(\<forall>i<length RESOURCE_MAP. \<not> suffix (fst (RESOURCE_MAP ! i)) s) \<longrightarrow> resource ?sc = None"
    using find_resource_None [of RESOURCE_MAP s] by simp
  ultimately show "\<exists>sc. StateChange_init s = Inr sc \<and>
      (\<forall>i<length RESOURCE_MAP.
          suffix (fst (RESOURCE_MAP ! i)) s \<and> (\<forall>j<i. \<not> suffix (fst (RESOURCE_MAP ! j)) s)
            \<longrightarrow> resource sc = Some (snd (RESOURCE_MAP ! i))) \<and>
      ((\<forall>i<length RESOURCE_MAP. \<not> suffix (fst (RESOURCE_MAP ! i)) s) \<longrightarrow> resource sc = None)"
    by blast
qed

lemma no_key_3: "find_resource RESOURCE_MAP ''3'' = None"
  by (simp add: RESOURCE_MAP_def endswith_def)

theorem resource_is_first_matching_suffix_witness:
  "\<exists>sc. StateChange_init ''3'' = Inr sc \<and> resource sc = None"
proof -
  have a: "''3'' \<noteq> []" by simp
  have b: "\<exists>c\<in>set ''3''. isdigit c" by (simp add: isdigit_def)
  have c: "\<forall>i<length RESOURCE_MAP. \<not> suffix (fst (RESOURCE_MAP ! i)) ''3''"
    using find_resource_None [of RESOURCE_MAP "''3''"] no_key_3 by simp
  from resource_is_first_matching_suffix [OF a b] c show ?thesis by blast
qed

section \<open>Malformed tokens\<close>

lemma parse_change_malformed:
  assumes "strip tok \<noteq> []" "\<forall>c\<in>set (strip tok). \<not> isdigit c"
  shows "parse_change tok = Inl SystemExit"
  using assms StateChange_init_no_digit [OF assms] by (simp add: parse_change_def)

lemma compute_event_malformed:
  assumes "tok \<in> set (split (CHR '' '') (filter (\<lambda>c. c \<noteq> CHR '','') (strip sc)))"
    "strip tok \<noteq> []" "\<forall>c\<in>set (strip tok). \<not> isdigit c"
  shows "\<exists>e. compute_event (a, Some sc) = Inl e"
proof -
  from map_result_Inl [where f = parse_change, OF assms(1) parse_change_malformed [OF assms(2,3)]]
  obtain e where "map_result parse_change
      (split (CHR '' '') (filter (\<lambda>c. c \<noteq> CHR '','') (strip sc))) = Inl e" by blast
  then show ?thesis by (cases a) (simp_all add: compute_event_def)
qed

lemma LogItem_malformed:
  assumes "(a, Some sc) \<in> set (zip (cell_divs c1) (cell_divs c2))"
    "tok \<in> set (split (CHR '' '') (filter (\<lambda>c. c \<noteq> CHR '','') (strip sc)))"
    "strip tok \<noteq> []" "\<forall>c\<in>set (strip tok). \<not> isdigit c"
  shows "\<exists>e. LogItem_parse_from_HTML [c0, c1, c2] = Inl e"
proof -
  from compute_event_malformed [OF assms(2,3,4)]
  obtain e where "compute_event (a, Some sc) = Inl e" by blast
  from map_result_Inl [where f = compute_event, OF assms(1) this]
  obtain e' where "compute_events c1 c2 = Inl e'" by (auto simp: compute_events_def)
  then show ?thesis
    by (cases "cell_string c0") (simp_all add: LogItem_parse_from_HTML_def)
qed

lemma GameLog_row_fails:
  assumes "r \<in> set rows" "LogItem_parse_from_HTML r = Inl e"
  shows "\<exists>e'. GameLog_parse_from_HTML rows = Inl e'"
proof -
  from assms(1) have "r \<in> set (rev rows)" by simp
  from map_result_Inl [where f = LogItem_parse_from_HTML, OF this assms(2)]
  show ?thesis by (auto simp: GameLog_parse_from_HTML_def)
qed

lemma main_parse_fails: "GameLog_parse_from_HTML rows = Inl e \<Longrightarrow> main fdiv fmul rows = Inl e"
  by (simp add: main_def)

text \<open>
  Claim C5. The parser fails exactly on the tokens without a decimal digit; on a non-empty
  token, the only kind the row classifier passes to it, the failure is the exit of the
  program (on the empty string it is the ValueError of the first check). A token without
  digits in any row of three cells makes the parse of the whole log fail, and with it the
  run: no log, no statistics, no report. When the token has a digit, the quantity is the
  number written by its first maximal run of digits: the digits \<open>ds\<close> in a token
  \<open>pre @ ds @ post\<close> where \<open>pre\<close> has no digit and \<open>post\<close> does not start with one.
\<close>

theorem malformed_token_aborts:
  "((\<exists>e. StateChange_init s = Inl e) \<longleftrightarrow> (\<forall>c\<in>set s. \<not> isdigit c))
   \<and> (s \<noteq> [] \<longrightarrow> (StateChange_init s = Inl SystemExit \<longleftrightarrow> (\<forall>c\<in>set s. \<not> isdigit c)))
   \<and> (r \<in> set rows \<and> r = [c0, c1, c2]
        \<and> (a, Some sc) \<in> set (zip (cell_divs c1) (cell_divs c2))
        \<and> tok \<in> set (split (CHR '' '') (filter (\<lambda>c. c \<noteq> CHR '','') (strip sc)))
        \<and> strip tok \<noteq> [] \<and> (\<forall>c\<in>set (strip tok). \<not> isdigit c)
      \<longrightarrow> parse_change tok = Inl SystemExit
          \<and> (\<exists>e. GameLog_parse_from_HTML rows = Inl e \<and> main fdiv fmul rows = Inl e))
   \<and> ((\<forall>c\<in>set pre. \<not> isdigit c) \<and> ds \<noteq> [] \<and> (\<forall>c\<in>set ds. isdigit c)
        \<and> (post = [] \<or> \<not> isdigit (hd post))
      \<longrightarrow> (\<exists>q. StateChange_init (pre @ ds @ post) = Inr q \<and> quantity q = digits_value ds))"
proof (intro conjI impI)
  show "(\<exists>e. StateChange_init s = Inl e) \<longleftrightarrow> (\<forall>c\<in>set s. \<not> isdigit c)"
  proof (cases "s = []")
    case True
    then show ?thesis by (simp add: StateChange_init_def)
  next
    case False
    show ?thesis
    proof (cases "\<exists>c\<in>set s. isdigit c")
      case True
      with StateChange_init_digit [OF False True] show ?thesis by auto
    next
      case nd: False
      then have "\<forall>c\<in>set s. \<not> isdigit c" by blast
      with StateChange_init_no_digit [OF False this] show ?thesis by auto
    qed
  qed
next
  assume ne: "s \<noteq> []"
  show "StateChange_init s = Inl SystemExit \<longleftrightarrow> (\<forall>c\<in>set s. \<not> isdigit c)"
  proof (cases "\<exists>c\<in>set s. isdigit c")
    case True
    with StateChange_init_digit [OF ne True] show ?thesis by auto
  next
    case False
    then have "\<forall>c\<in>set s. \<not> isdigit c" by blast
    with StateChange_init_no_digit [OF ne this] show ?thesis by auto
  qed
next
  assume h: "r \<in> set rows \<and> r = [c0, c1, c2]
        \<and> (a, Some sc) \<in> set (zip (cell_divs c1) (cell_divs c2))
        \<and> tok \<in> set (split (CHR '' '') (filter (\<lambda>c. c \<noteq> CHR '','') (strip sc)))
        \<and> strip tok \<noteq> [] \<and> (\<forall>c\<in>set (strip tok). \<not> isdigit c)"
  then show "parse_change tok = Inl SystemExit"
    using parse_change_malformed by blast
  from h LogItem_malformed [of a sc c1 c2 tok c0]
  obtain e where "LogItem_parse_from_HTML r = Inl e" by blast
  from GameLog_row_fails [OF _ this] h
  obtain e' where "GameLog_parse_from_HTML rows = Inl e'" by blast
  with main_parse_fails [OF this]
  show "\<exists>e. GameLog_parse_from_HTML rows = Inl e \<and> main fdiv fmul rows = Inl e" by blast
next
  assume h: "(\<forall>c\<in>set pre. \<not> isdigit c) \<and> ds \<noteq> [] \<and> (\<forall>c\<in>set ds. isdigit c)
        \<and> (post = [] \<or> \<not> isdigit (hd post))"
  then have run: "takeWhile isdigit (dropWhile (\<lambda>c. \<not> isdigit c) (pre @ ds @ post)) = ds"
    using first_run_decomp by blast
  from h have ne: "pre @ ds @ post \<noteq> []" by simp
  from h have "\<exists>c\<in>set (pre @ ds @ post). isdigit c" by (cases ds) auto
  from StateChange_init_digit [OF ne this] run
  show "\<exists>q. StateChange_init (pre @ ds @ post) = Inr q \<and> quantity q = digits_value ds"
    by simp
qed

lemma strip_eval: "strip ''abc'' = ''abc''" "strip ''2c, abc'' = ''2c, abc''"
  by (simp_all add: strip_def isspace_def)

theorem malformed_token_aborts_witness:
  "StateChange_init ''abc'' = Inl SystemExit
   \<and> (\<exists>e. GameLog_parse_from_HTML [bad_row] = Inl e \<and> main exact_fdiv exact_fmul [bad_row] = Inl e)
   \<and> (\<exists>q. StateChange_init ''x12k3'' = Inr q \<and> quantity q = 12)"
proof -
  have a: "''abc'' \<noteq> [] \<and> (\<forall>c\<in>set ''abc''. \<not> isdigit c)" by (simp add: isdigit_def)
  have b: "bad_row \<in> set [bad_row] \<and> bad_row = [bad_row ! 0, bad_row ! 1, bad_row ! 2]
        \<and> (Some ''build'', Some ''2c, abc'') \<in> set (zip (cell_divs (bad_row ! 1)) (cell_divs (bad_row ! 2)))
        \<and> ''abc'' \<in> set (split (CHR '' '') (filter (\<lambda>c. c \<noteq> CHR '','') (strip ''2c, abc'')))
        \<and> strip ''abc'' \<noteq> [] \<and> (\<forall>c\<in>set (strip ''abc''). \<not> isdigit c)"
    by (simp add: bad_row_def strip_eval isdigit_def)
  have c: "(\<forall>c\<in>set ''x''. \<not> isdigit c) \<and> ''12'' \<noteq> [] \<and> (\<forall>c\<in>set ''12''. isdigit c)
        \<and> (''k3'' = [] \<or> \<not> isdigit (hd ''k3''))"
    by (simp add: isdigit_def)
  have d: "digits_value ''12'' = 12" by (simp add: digit_val_def)
  from malformed_token_aborts [of "''abc''" bad_row "[bad_row]" "bad_row ! 0" "bad_row ! 1"
      "bad_row ! 2" "Some ''build''" "''2c, abc''" "''abc''" exact_fdiv exact_fmul
      "''x''" "''12''" "''k3''"] a b c d
  show ?thesis by simp
qed

section \<open>The row classifier and the log builder\<close>




lemma strip_terrans: "strip ''terrans'' = ''terrans''"
  by (simp add: strip_def isspace_def)


lemma row_build_item:
  "LogItem_parse_from_HTML row_build =
     Inr \<lparr>text = ''terrans build a mine'', faction = Some ''terrans'',
          events = Some [(''build'', [Some \<lparr>type = LOSS, resource = Some COIN, quantity = 2\<rparr>,
                                     Some \<lparr>type = LOSS, resource = Some ORE, quantity = 1\<rparr>])]\<rparr>"
  by (simp add: row_build_def row_eval)

lemma row_round_item:
  "LogItem_parse_from_HTML row_round = Inr \<lparr>text = ''Round 1'', faction = None, events = None\<rparr>"
  by (simp add: row_round_def row_eval)

lemma row_charge_item:
  "LogItem_parse_from_HTML row_charge =
     Inr \<lparr>text = ''terrans charge'', faction = Some ''terrans'',
          events = Some [(''charge'', [Some \<lparr>type = GAIN, resource = Some POWER, quantity = 3\<rparr>,
                                      Some \<lparr>type = LOSS, resource = Some VP, quantity = 2\<rparr>])]\<rparr>"
  by (simp add: row_charge_def row_eval)

lemma row_fed_item:
  "LogItem_parse_from_HTML row_fed =
     Inr \<lparr>text = ''terrans federation'', faction = Some ''terrans'',
          events = Some [(''federation'', [Some \<lparr>type = GAIN, resource = Some VP, quantity = 8\<rparr>])]\<rparr>"
  by (simp add: row_fed_def row_eval)


lemma row_gap_item:
  "LogItem_parse_from_HTML row_gap =
     Inr \<lparr>text = ''terrans build'', faction = Some ''terrans'',
          events = Some [(''build'', [Some \<lparr>type = GAIN, resource = Some COIN, quantity = 4\<rparr>,
                                     None,
                                     Some \<lparr>type = GAIN, resource = Some ORE, quantity = 2\<rparr>])]\<rparr>"
  by (simp add: row_gap_def row_eval)



text \<open>
  Claim C3. The items of the parsed log are the classifications of the rows in reversed
  order: for rows given latest first, the log holds them oldest first. The log is built
  whenever every row can be classified.
\<close>

theorem log_entries_are_reversed_rows:
  "(GameLog_parse_from_HTML rows = Inr l
      \<longrightarrow> map Inr (items l) = map LogItem_parse_from_HTML (rev rows))
   \<and> ((\<forall>r\<in>set rows. \<exists>it. LogItem_parse_from_HTML r = Inr it)
      \<longrightarrow> (\<exists>l. GameLog_parse_from_HTML rows = Inr l))"
proof (intro conjI impI)
  assume "GameLog_parse_from_HTML rows = Inr l"
  then obtain its where "map_result LogItem_parse_from_HTML (rev rows) = Inr its" "items l = its"
    by (auto simp: GameLog_parse_from_HTML_def split: sum.splits)
  then show "map Inr (items l) = map LogItem_parse_from_HTML (rev rows)"
    by (simp add: map_result_Inr)
next
  assume "\<forall>r\<in>set rows. \<exists>it. LogItem_parse_from_HTML r = Inr it"
  then have "\<forall>r\<in>set (rev rows). \<exists>it. LogItem_parse_from_HTML r = Inr it" by simp
  from map_result_total [OF this]
  show "\<exists>l. GameLog_parse_from_HTML rows = Inr l"
    by (auto simp: GameLog_parse_from_HTML_def)
qed

theorem log_entries_are_reversed_rows_witness:
  "\<exists>l. GameLog_parse_from_HTML [row_build, row_round] = Inr l
       \<and> map Inr (items l) = [LogItem_parse_from_HTML row_round, LogItem_parse_from_HTML row_build]"
proof -
  have "\<forall>r\<in>set [row_build, row_round]. \<exists>it. LogItem_parse_from_HTML r = Inr it"
    by (simp add: row_build_item row_round_item)
  with log_entries_are_reversed_rows [of "[row_build, row_round]"]
  obtain l where l: "GameLog_parse_from_HTML [row_build, row_round] = Inr l" by blast
  with log_entries_are_reversed_rows [of "[row_build, row_round]" l]
  have "map Inr (items l) = map LogItem_parse_from_HTML (rev [row_build, row_round])"
    by blast
  with l show ?thesis by simp
qed

section \<open>The statistics accumulator\<close>

lemma augment_single:
  "resource c = Some r \<Longrightarrow>
   augment (a, [Some c]) st =
     (if r = VP then update_vp a c st else update_resources a c st)"
  by (simp add: augment_def augment_change_def split: sum.splits)

lemma update_resources_loss: "type c = LOSS \<Longrightarrow> update_resources a c st = Inr st"
  by (simp add: update_resources_def)

lemma resource_counter_leech [simp]:
  "resource_counter r' (st\<lparr>leech := x\<rparr>) = resource_counter r' st"
  by (cases r') simp_all

lemma resource_counter_other:
  "r' \<noteq> COIN \<Longrightarrow> resource_counter r' (st\<lparr>coins := x\<rparr>) = resource_counter r' st"
  "r' \<noteq> ORE \<Longrightarrow> resource_counter r' (st\<lparr>ore := x\<rparr>) = resource_counter r' st"
  "r' \<noteq> KNOWLEDGE \<Longrightarrow> resource_counter r' (st\<lparr>knowledge := x\<rparr>) = resource_counter r' st"
  "r' \<noteq> QIC \<Longrightarrow> resource_counter r' (st\<lparr>qic := x\<rparr>) = resource_counter r' st"
  "r' \<noteq> POWER \<Longrightarrow> resource_counter r' (st\<lparr>power := x\<rparr>) = resource_counter r' st"
  "r' \<noteq> PT \<Longrightarrow> resource_counter r' (st\<lparr>pt := x\<rparr>) = resource_counter r' st"
  by (cases r'; simp)+

lemma update_resources_gain:
  assumes "type c = GAIN" "resource c = Some r" "r \<noteq> VP"
  shows "\<exists>st'. update_resources a c st = Inr st'
     \<and> resource_counter r st' = resource_counter r st + int (quantity c)
     \<and> (\<forall>r'. r' \<noteq> r \<longrightarrow> resource_counter r' st' = resource_counter r' st)
     \<and> leech st' = leech st + (if a = ''charge'' then int (quantity c) else 0)"
  using assms
  by (cases r) (auto simp: update_resources_def RESOURCE_TO_FIELD_MAP_def resource_counter_other)

lemma update_bucket_charge:
  "update_bucket ''charge'' q st = st\<lparr>vp_lost_from_leech := vp_lost_from_leech st - q\<rparr>"
  by (simp add: update_bucket_def TECH_TRACKS_def)

lemma update_bucket_vp [simp]: "vp (update_bucket a q st) = vp st"
  by (simp add: update_bucket_def)

lemma update_bucket_gain:
  assumes "b \<in> set gain_buckets"
  shows "b (update_bucket a q st) = b st \<or> b (update_bucket a q st) = b st + q"
proof -
  from assms consider "b = vp_from_round_scoring" | "b = vp_from_boosters"
    | "b = vp_from_endgame" | "b = vp_from_techs" | "b = vp_from_adv_techs"
    | "b = vp_from_feds" | "b = vp_from_qic_act" | "b = vp_from_tracks"
    | "b = vp_from_resources"
    unfolding gain_buckets_def by fastforce
  then show ?thesis by cases (simp_all add: update_bucket_def)
qed

lemma update_bucket_leech:
  "vp_lost_from_leech (update_bucket a q st) = vp_lost_from_leech st
   \<or> vp_lost_from_leech (update_bucket a q st) = vp_lost_from_leech st - q"
  by (simp add: update_bucket_def)

lemma gain_buckets_vp_update:
  "b \<in> set gain_buckets \<Longrightarrow> b (st\<lparr>vp := x\<rparr>) = b st"
  unfolding gain_buckets_def by fastforce

lemma update_vp_VP:
  "resource c = Some VP \<Longrightarrow>
   update_vp a c st =
     Inr ((update_bucket a (int (quantity c)) st)
           \<lparr>vp := vp st + (case type c of GAIN \<Rightarrow> int (quantity c) | LOSS \<Rightarrow> - int (quantity c))\<rparr>)"
  by (cases "type c") (simp_all add: update_vp_def Let_def)

text \<open>
  Claim C2. The specification says that an absent delta is skipped. The source does not do
  so: the row classifier puts \<^verbatim>\<open>None\<close> in the list of changes for a blank token, and
  \<^verbatim>\<open>FactionStats.augment\<close> reads \<^verbatim>\<open>change.resource\<close> of every change, which raises
  AttributeError on \<^verbatim>\<open>None\<close>. A row whose change text has two spaces between two tokens
  yields an event with an absent delta in the middle, and the run on that row ends with
  AttributeError instead of statistics.
\<close>

theorem absent_delta_raises:
  "LogItem_parse_from_HTML row_gap =
     Inr \<lparr>text = ''terrans build'', faction = Some ''terrans'',
          events = Some [(''build'', [Some \<lparr>type = GAIN, resource = Some COIN, quantity = 4\<rparr>,
                                     None,
                                     Some \<lparr>type = GAIN, resource = Some ORE, quantity = 2\<rparr>])]\<rparr>
   \<and> augment (''build'', [Some \<lparr>type = GAIN, resource = Some COIN, quantity = 4\<rparr>, None,
                          Some \<lparr>type = GAIN, resource = Some ORE, quantity = 2\<rparr>])
        (FactionStats_init ''terrans'') = Inl AttributeError
   \<and> main exact_fdiv exact_fmul [row_gap] = Inl AttributeError"
proof (intro conjI)
  show "LogItem_parse_from_HTML row_gap =
     Inr \<lparr>text = ''terrans build'', faction = Some ''terrans'',
          events = Some [(''build'', [Some \<lparr>type = GAIN, resource = Some COIN, quantity = 4\<rparr>,
                                     None,
                                     Some \<lparr>type = GAIN, resource = Some ORE, quantity = 2\<rparr>])]\<rparr>"
    by (rule row_gap_item)
  show "augment (''build'', [Some \<lparr>type = GAIN, resource = Some COIN, quantity = 4\<rparr>, None,
                          Some \<lparr>type = GAIN, resource = Some ORE, quantity = 2\<rparr>])
        (FactionStats_init ''terrans'') = Inl AttributeError"
    by (simp add: stats_eval)
  show "main exact_fdiv exact_fmul [row_gap] = Inl AttributeError"
    by (simp add: row_gap_item strip_terrans stats_eval)
qed

text \<open>
  Claim C7. For a delta whose resource is not the victory point: a Loss leaves the
  statistics unchanged; a Gain adds the quantity to the counter of the resource of the
  delta, leaves the counter of every other resource unchanged, and adds the quantity to the
  leech counter exactly when the action is \<open>charge\<close>. The same holds for the event that
  consists of this delta alone.
\<close>

theorem resource_bookkeeping:
  assumes "resource c = Some r" "r \<noteq> VP"
  shows "(type c = LOSS \<longrightarrow>
            update_resources a c st = Inr st \<and> augment (a, [Some c]) st = Inr st)
     \<and> (type c = GAIN \<longrightarrow>
          (\<exists>st'. update_resources a c st = Inr st' \<and> augment (a, [Some c]) st = Inr st'
             \<and> resource_counter r st' = resource_counter r st + int (quantity c)
             \<and> (\<forall>r'. r' \<noteq> r \<longrightarrow> resource_counter r' st' = resource_counter r' st)
             \<and> leech st' = leech st + (if a = ''charge'' then int (quantity c) else 0)))"
proof (intro conjI impI)
  assume l: "type c = LOSS"
  show "update_resources a c st = Inr st" by (rule update_resources_loss [OF l])
  then show "augment (a, [Some c]) st = Inr st"
    using assms by (simp add: augment_single)
next
  assume g: "type c = GAIN"
  from update_resources_gain [OF g assms, of a st] augment_single [OF assms(1), of a st] assms(2)
  show "\<exists>st'. update_resources a c st = Inr st' \<and> augment (a, [Some c]) st = Inr st'
             \<and> resource_counter r st' = resource_counter r st + int (quantity c)
             \<and> (\<forall>r'. r' \<noteq> r \<longrightarrow> resource_counter r' st' = resource_counter r' st)
             \<and> leech st' = leech st + (if a = ''charge'' then int (quantity c) else 0)"
    by auto
qed

theorem resource_bookkeeping_witness:
  "update_resources ''convert'' \<lparr>type = LOSS, resource = Some ORE, quantity = 3\<rparr>
       (FactionStats_init ''terrans'') = Inr (FactionStats_init ''terrans'')
   \<and> (\<exists>st'. update_resources ''charge'' \<lparr>type = GAIN, resource = Some POWER, quantity = 3\<rparr>
               (FactionStats_init ''terrans'') = Inr st'
         \<and> power st' = 3 \<and> leech st' = 3 \<and> coins st' = 0 \<and> ore st' = 0)"
proof -
  let ?l = "\<lparr>type = LOSS, resource = Some ORE, quantity = 3\<rparr>"
  let ?g = "\<lparr>type = GAIN, resource = Some POWER, quantity = 3\<rparr>"
  let ?st = "FactionStats_init ''terrans''"
  have a: "update_resources ''convert'' ?l ?st = Inr ?st"
    using resource_bookkeeping [of ?l ORE "''convert''" ?st] by simp
  from resource_bookkeeping [of ?g POWER "''charge''" ?st]
  obtain st' where st: "update_resources ''charge'' ?g ?st = Inr st'"
    "resource_counter POWER st' = resource_counter POWER ?st + int (quantity ?g)"
    "\<forall>r'. r' \<noteq> POWER \<longrightarrow> resource_counter r' st' = resource_counter r' ?st"
    "leech st' = leech ?st + (if ''charge'' = ''charge'' then int (quantity ?g) else 0)"
    by auto
  from st(3) [rule_format, of COIN] st(3) [rule_format, of ORE]
  have "resource_counter COIN st' = resource_counter COIN ?st"
    "resource_counter ORE st' = resource_counter ORE ?st" by simp_all
  with st(1,2,4) have "power st' = 3 \<and> leech st' = 3 \<and> coins st' = 0 \<and> ore st' = 0"
    by (simp add: FactionStats_init_def)
  with a st(1) show ?thesis by blast
qed

text \<open>
  Claim C6. Accumulating the event of action \<open>charge\<close> with a Gain of \<open>n\<close> victory
  points adds \<open>n\<close> to the total and subtracts \<open>n\<close> from the leech bucket, changing
  nothing else. For every action and every victory-point delta, each of the nine other
  buckets is left unchanged or grows by the quantity, and the leech bucket is left
  unchanged or shrinks by the quantity: the sign is inverted for the leech bucket alone.
\<close>

theorem leech_asymmetry:
  "augment (''charge'', [Some \<lparr>type = GAIN, resource = Some VP, quantity = n\<rparr>]) st =
     Inr (st\<lparr>vp_lost_from_leech := vp_lost_from_leech st - int n, vp := vp st + int n\<rparr>)
   \<and> (resource c = Some VP \<longrightarrow>
        (\<exists>st'. update_vp a c st = Inr st'
           \<and> (\<forall>b\<in>set gain_buckets. b st' = b st \<or> b st' = b st + int (quantity c))
           \<and> (vp_lost_from_leech st' = vp_lost_from_leech st
                \<or> vp_lost_from_leech st' = vp_lost_from_leech st - int (quantity c))))"
proof (intro conjI impI)
  show "augment (''charge'', [Some \<lparr>type = GAIN, resource = Some VP, quantity = n\<rparr>]) st =
     Inr (st\<lparr>vp_lost_from_leech := vp_lost_from_leech st - int n, vp := vp st + int n\<rparr>)"
  proof -
    let ?c = "\<lparr>type = GAIN, resource = Some VP, quantity = n\<rparr>"
    have "resource ?c = Some VP" by simp
    from augment_single [OF this, of "''charge''" st] update_vp_VP [OF this, of "''charge''" st]
    show ?thesis by (simp add: update_bucket_charge)
  qed
next
  assume r: "resource c = Some VP"
  let ?st = "(update_bucket a (int (quantity c)) st)
           \<lparr>vp := vp st + (case type c of GAIN \<Rightarrow> int (quantity c) | LOSS \<Rightarrow> - int (quantity c))\<rparr>"
  have "update_vp a c st = Inr ?st" by (rule update_vp_VP [OF r])
  moreover have "\<forall>b\<in>set gain_buckets. b ?st = b st \<or> b ?st = b st + int (quantity c)"
  proof
    fix b assume b: "b \<in> set gain_buckets"
    from update_bucket_gain [OF b, of a "int (quantity c)" st]
    show "b ?st = b st \<or> b ?st = b st + int (quantity c)"
      by (simp only: gain_buckets_vp_update [OF b])
  qed
  moreover have "vp_lost_from_leech ?st = vp_lost_from_leech st
                \<or> vp_lost_from_leech ?st = vp_lost_from_leech st - int (quantity c)"
    using update_bucket_leech [of a "int (quantity c)" st] by simp
  ultimately show "\<exists>st'. update_vp a c st = Inr st'
           \<and> (\<forall>b\<in>set gain_buckets. b st' = b st \<or> b st' = b st + int (quantity c))
           \<and> (vp_lost_from_leech st' = vp_lost_from_leech st
                \<or> vp_lost_from_leech st' = vp_lost_from_leech st - int (quantity c))"
    by blast
qed

theorem leech_asymmetry_witness:
  "augment (''charge'', [Some \<lparr>type = GAIN, resource = Some VP, quantity = 5\<rparr>])
       (FactionStats_init ''terrans'') =
     Inr ((FactionStats_init ''terrans'')\<lparr>vp_lost_from_leech := - 5, vp := 15\<rparr>)
   \<and> (\<exists>st'. update_vp ''round'' \<lparr>type = GAIN, resource = Some VP, quantity = 2\<rparr>
               (FactionStats_init ''terrans'') = Inr st'
         \<and> (\<forall>b\<in>set gain_buckets. b st' = 0 \<or> b st' = 2)
         \<and> vp_lost_from_leech st' = 0)"
proof -
  let ?c = "\<lparr>type = GAIN, resource = Some VP, quantity = 2\<rparr>"
  have r: "resource ?c = Some VP" by simp
  from leech_asymmetry [of 5 "FactionStats_init ''terrans''" ?c "''round''"] r
  obtain st' where a: "augment (''charge'', [Some \<lparr>type = GAIN, resource = Some VP, quantity = 5\<rparr>])
       (FactionStats_init ''terrans'') =
     Inr ((FactionStats_init ''terrans'')\<lparr>vp_lost_from_leech :=
            vp_lost_from_leech (FactionStats_init ''terrans'') - int 5,
          vp := vp (FactionStats_init ''terrans'') + int 5\<rparr>)"
    and st: "update_vp ''round'' ?c (FactionStats_init ''terrans'') = Inr st'"
      "\<forall>b\<in>set gain_buckets. b st' = b (FactionStats_init ''terrans'')
          \<or> b st' = b (FactionStats_init ''terrans'') + int (quantity ?c)"
    by blast
  have z: "\<forall>b\<in>set gain_buckets. b (FactionStats_init ''terrans'') = 0"
    by (simp add: gain_buckets_def FactionStats_init_def)
  from st(1) have "vp_lost_from_leech st' = 0"
    by (auto simp: update_vp_def update_bucket_def FactionStats_init_def)
  moreover from st(2) z have "\<forall>b\<in>set gain_buckets. b st' = 0 \<or> b st' = 2" by auto
  moreover from a have "augment (''charge'', [Some \<lparr>type = GAIN, resource = Some VP, quantity = 5\<rparr>])
       (FactionStats_init ''terrans'') =
     Inr ((FactionStats_init ''terrans'')\<lparr>vp_lost_from_leech := - 5, vp := 15\<rparr>)"
    by (simp add: FactionStats_init_def)
  ultimately show ?thesis using st(1) by blast
qed

lemma update_resources_vp: "update_resources a c st = Inr st' \<Longrightarrow> vp st' = vp st"
  by (auto simp: update_resources_def RESOURCE_TO_FIELD_MAP_def Let_def
        split: if_splits option.splits Res.splits)

lemma augment_change_vp:
  assumes "augment_change a ch st = Inr st'"
  shows "\<exists>c. ch = Some c \<and> vp st' = vp st + vp_delta c"
proof -
  from assms obtain c r where c: "ch = Some c" "resource c = Some r"
    by (auto simp: augment_change_def split: option.splits)
  show ?thesis
  proof (cases "r = VP")
    case True
    with assms c update_vp_VP [of c a st] show ?thesis
      by (cases "type c") (auto simp: augment_change_def vp_delta_def)
  next
    case False
    with assms c have "update_resources a c st = Inr st'" by (simp add: augment_change_def)
    from update_resources_vp [OF this] c False show ?thesis by (simp add: vp_delta_def)
  qed
qed

lemma augment_vp:
  "for_each (augment_change a) chs st = Inr st' \<Longrightarrow>
   vp st' = vp st + sum_list (map vp_delta (List.map_filter (\<lambda>c. c) chs))"
proof (induction chs arbitrary: st)
  case Nil
  then show ?case by (simp add: List.map_filter_simps)
next
  case (Cons ch chs)
  from Cons.prems obtain st1 where s1: "augment_change a ch st = Inr st1"
    and s2: "for_each (augment_change a) chs st1 = Inr st'"
    by (auto split: sum.splits)
  from augment_change_vp [OF s1] obtain c where c: "ch = Some c" "vp st1 = vp st + vp_delta c"
    by blast
  from Cons.IH [OF s2] c show ?case by (simp add: List.map_filter_simps)
qed

lemma augment_faction_vp:
  assumes "augment_faction f ev d = Inr d'"
  shows "map_option vp (map_of d' g) =
         map_option (\<lambda>st. vp st + (if g = f then event_vp ev else 0)) (map_of d g)"
proof -
  from assms obtain st st' where st: "map_of d f = Some st" "augment ev st = Inr st'"
    "d' = AList.update f st' d"
    by (auto simp: augment_faction_def split: option.splits sum.splits)
  from st(2) have "vp st' = vp st + event_vp ev"
    by (simp add: augment_def event_vp_def augment_vp)
  with st show ?thesis by (simp add: update_conv' option.map_ident)
qed

lemma for_each_augment_faction_vp:
  "for_each (augment_faction f) evs d = Inr d' \<Longrightarrow>
   map_option vp (map_of d' g) =
     map_option (\<lambda>st. vp st + (if g = f then sum_list (map event_vp evs) else 0)) (map_of d g)"
proof (induction evs arbitrary: d)
  case Nil
  then show ?case by (simp add: option.map_ident)
next
  case (Cons ev evs)
  from Cons.prems obtain d1 where s1: "augment_faction f ev d = Inr d1"
    and s2: "for_each (augment_faction f) evs d1 = Inr d'"
    by (auto split: sum.splits)
  from Cons.IH [OF s2] augment_faction_vp [OF s1, of g]
  show ?case by (cases "map_of d g") (auto simp: option.map_comp)
qed

lemma process_item_vp:
  assumes "process_item item d = Inr d'" "g \<noteq> []"
  shows "map_option vp (map_of d' g) = map_option (\<lambda>st. vp st + item_vp g item) (map_of d g)"
proof (cases "LogItem.faction item")
  case None
  with assms show ?thesis by (simp add: process_item_def item_vp_def option.map_ident)
next
  case (Some f)
  show ?thesis
  proof (cases "events item")
    case None
    with assms Some show ?thesis by (simp add: process_item_def item_vp_def option.map_ident)
  next
    case evs: (Some evs)
    show ?thesis
    proof (cases "f \<noteq> [] \<and> evs \<noteq> []")
      case True
      with assms Some evs have "for_each (augment_faction f) evs d = Inr d'"
        by (simp add: process_item_def)
      from for_each_augment_faction_vp [OF this, of g] Some evs
      show ?thesis by (auto simp: item_vp_def)
    next
      case False
      with assms Some evs have "d' = d" by (auto simp: process_item_def)
      with False Some evs assms(2) show ?thesis
        by (auto simp: item_vp_def option.map_ident)
    qed
  qed
qed

lemma for_each_process_item_vp:
  "for_each process_item its d = Inr d' \<Longrightarrow> g \<noteq> [] \<Longrightarrow>
   map_option vp (map_of d' g) =
     map_option (\<lambda>st. vp st + sum_list (map (item_vp g) its)) (map_of d g)"
proof (induction its arbitrary: d)
  case Nil
  then show ?case by (simp add: option.map_ident)
next
  case (Cons item its)
  from Cons.prems obtain d1 where s1: "process_item item d = Inr d1"
    and s2: "for_each process_item its d1 = Inr d'"
    by (auto split: sum.splits)
  from Cons.IH [OF s2 Cons.prems(2)] process_item_vp [OF s1 Cons.prems(2)]
  show ?case by (cases "map_of d g") (auto simp: option.map_comp)
qed

lemma init_dict:
  "map_of (foldl (\<lambda>d f. AList.update f (FactionStats_init f) d) d0 fs) g =
     (if g \<in> set fs then Some (FactionStats_init g) else map_of d0 g)"
  by (induction fs arbitrary: d0 rule: rev_induct) (auto simp: update_conv')

lemma vp_delta_quantities:
  "sum_list (map vp_delta cs) = vp_quantities GAIN cs - vp_quantities LOSS cs"
proof (induction cs)
  case Nil
  then show ?case by (simp add: vp_quantities_def)
next
  case (Cons c cs)
  then show ?case
    by (cases "type c") (auto simp: vp_quantities_def vp_delta_def)
qed

lemma item_vp_deltas:
  "sum_list (map (item_vp g) its) = sum_list (map vp_delta (participant_deltas g its))"
proof (induction its)
  case Nil
  then show ?case by (simp add: participant_deltas_def)
next
  case (Cons item its)
  have ev: "sum_list (map event_vp evs) =
        sum_list (map vp_delta (concat (map (\<lambda>ev. List.map_filter (\<lambda>c. c) (snd ev)) evs)))" for evs
    by (induction evs) (simp_all add: event_vp_def)
  from Cons show ?case
    by (auto simp: participant_deltas_def item_vp_def ev split: option.splits)
qed

text \<open>
  Claim C1. When the aggregation pass over a log completes, the total of every participant
  of the log is 10 plus the quantities of the Gain victory-point deltas minus the
  quantities of the Loss victory-point deltas of that participant's events. The action
  labels, which select the bucket, do not occur in the statement. (A participant is a
  non-empty name: the pass skips the items whose faction is the empty string.)
\<close>

theorem vp_total_invariant:
  assumes "Stats_init l = Inr s" "f \<in> set (factions l)" "f \<noteq> []"
  shows "\<exists>st. map_of (faction_stats s) f = Some st
     \<and> vp st = 10 + vp_quantities GAIN (participant_deltas f (items l))
                  - vp_quantities LOSS (participant_deltas f (items l))"
proof -
  let ?d0 = "foldl (\<lambda>d f. AList.update f (FactionStats_init f) d) [] (factions l)"
  from assms(1) have run: "for_each process_item (items l) ?d0 = Inr (faction_stats s)"
    by (auto simp: Stats_init_def split: sum.splits)
  have d0: "map_of ?d0 f = Some (FactionStats_init f)"
    using assms(2) by (simp add: init_dict)
  from for_each_process_item_vp [OF run assms(3)] d0
  obtain st where st: "map_of (faction_stats s) f = Some st"
    "vp st = vp (FactionStats_init f) + sum_list (map (item_vp f) (items l))"
    by auto
  then show ?thesis
    by (simp add: item_vp_deltas vp_delta_quantities FactionStats_init_def)
qed

theorem vp_total_invariant_witness:
  "\<exists>l s st. GameLog_parse_from_HTML [row_fed, row_charge] = Inr l \<and> Stats_init l = Inr s
     \<and> ''terrans'' \<in> set (factions l)
     \<and> map_of (faction_stats s) ''terrans'' = Some st \<and> vp st = 16"
proof -
  let ?l = "\<lparr>factions = [''terrans''],
     items = [\<lparr>text = ''terrans charge'', faction = Some ''terrans'',
          events = Some [(''charge'', [Some \<lparr>type = GAIN, resource = Some POWER, quantity = 3\<rparr>,
                                      Some \<lparr>type = LOSS, resource = Some VP, quantity = 2\<rparr>])]\<rparr>,
        \<lparr>text = ''terrans federation'', faction = Some ''terrans'',
          events = Some [(''federation'', [Some \<lparr>type = GAIN, resource = Some VP, quantity = 8\<rparr>])]\<rparr>]\<rparr>"
  have l: "GameLog_parse_from_HTML [row_fed, row_charge] = Inr ?l"
    by (simp add: GameLog_parse_from_HTML_def row_fed_item row_charge_item add_faction_def
          strip_terrans)
  have "\<exists>s. Stats_init ?l = Inr s" by (simp add: stats_eval)
  then obtain s where s: "Stats_init ?l = Inr s" by blast
  have f: "''terrans'' \<in> set (factions ?l)" "''terrans'' \<noteq> []" by simp_all
  from vp_total_invariant [OF s f]
  obtain st where st: "map_of (faction_stats s) ''terrans'' = Some st"
    "vp st = 10 + vp_quantities GAIN (participant_deltas ''terrans'' (items ?l))
                  - vp_quantities LOSS (participant_deltas ''terrans'' (items ?l))"
    by blast
  have "vp st = 16"
    unfolding st(2)
    by (simp add: vp_quantities_def participant_deltas_def List.map_filter_simps)
  with l s f st show ?thesis by blast
qed

section \<open>The percentage breakdown\<close>








end
